theory Spec2Isabelle
  imports Main "HOL-Library.Sublist"
begin

section \<open>The changelog updater of duties.py\<close>

text \<open>
  This theory embeds the three functions of \<^verbatim>\<open>duties.py\<close> that rewrite the changelog:
  \<^verbatim>\<open>_latest\<close> (lines 21-26), \<^verbatim>\<open>_unreleased\<close> (lines 29-33) and
  \<^verbatim>\<open>update_changelog\<close> (lines 36-79), together with the Python built-ins they call on
  strings and lists. The libraries the routine calls (urllib, Jinja, git-changelog, re) are
  parameters of the model: each is a function that may return an error.
\<close>

subsection \<open>Errors\<close>

text \<open>
  Every exception is a value. \<open>ValueError\<close> is what \<^verbatim>\<open>list.index\<close> raises,
  \<open>KeyError\<close> what a dictionary lookup raises, \<open>FileNotFoundError\<close> what
  \<^verbatim>\<open>open(path, "r")\<close> raises on a missing file; the remaining constructors stand for
  the failures of the external libraries.
\<close>

datatype error =
    ValueError
  | KeyError
  | FileNotFoundError
  | URLError
  | TemplateError
  | GitError
  | RegexError

subsection \<open>Python built-ins on strings and lists\<close>

text \<open>
  A Python \<^verbatim>\<open>str\<close> is a \<open>string\<close>; one \<open>char\<close> is one character of the text, so the
  model covers texts whose code points are below 256. The line boundaries of
  \<^verbatim>\<open>str.splitlines\<close> in that range are LF, VT, FF, CR, FS, GS, RS and NEL, and CR LF
  counts as one boundary.
\<close>

definition LF :: char where
  "LF = CHR 0x0A"

definition CR :: char where
  "CR = CHR 0x0D"

definition is_linebreak :: "char \<Rightarrow> bool" where
  "is_linebreak c \<longleftrightarrow>
     c \<in> set [CHR 0x0A, CHR 0x0B, CHR 0x0C, CHR 0x0D, CHR 0x1C, CHR 0x1D, CHR 0x1E, CHR 0x85]"

text \<open>
  \<^verbatim>\<open>str.splitlines()\<close>: the lines without their line breaks; a line break at the very
  end does not open a further, empty line, and the empty text has no line.
\<close>

fun splitlines :: "string \<Rightarrow> string list" where
  "splitlines [] = []"
| "splitlines [c] = (if is_linebreak c then [[]] else [[c]])"
| "splitlines (c # d # ds) =
     (if c = CR \<and> d = LF then [] # splitlines ds
      else if is_linebreak c then [] # splitlines (d # ds)
      else (case splitlines (d # ds) of
              [] \<Rightarrow> [[c]]
            | l # ls \<Rightarrow> (c # l) # ls))"

text \<open>\<^verbatim>\<open>sep.join(xs)\<close>.\<close>

fun join :: "string \<Rightarrow> string list \<Rightarrow> string" where
  "join sep [] = []"
| "join sep [x] = x"
| "join sep (x # y # ys) = x @ sep @ join sep (y # ys)"

text \<open>\<^verbatim>\<open>s.rstrip(chars)\<close>: the trailing characters that occur in \<open>chars\<close> are removed.\<close>

definition rstrip :: "string \<Rightarrow> string \<Rightarrow> string" where
  "rstrip s chars = rev (dropWhile (\<lambda>c. c \<in> set chars) (rev s))"

text \<open>
  \<^verbatim>\<open>xs.index(x)\<close>: the position of the first element equal to \<open>x\<close>; ValueError when
  there is none.
\<close>

fun list_index :: "'a list \<Rightarrow> 'a \<Rightarrow> error + nat" where
  "list_index [] x = Inl ValueError"
| "list_index (y # ys) x =
     (if y = x then Inr 0
      else (case list_index ys x of Inl e \<Rightarrow> Inl e | Inr i \<Rightarrow> Inr (Suc i)))"

text \<open>
  \<^verbatim>\<open>s.replace(old, new)\<close>: every occurrence of \<open>old\<close>, found from the left and not
  overlapping an earlier one, becomes \<open>new\<close>. An empty \<open>old\<close> occurs before every character
  and at the end.
\<close>

function replace :: "string \<Rightarrow> string \<Rightarrow> string \<Rightarrow> string" where
  "replace s old new =
     (if old = [] then new @ concat (map (\<lambda>c. c # new) s)
      else if s = [] then []
      else if prefix old s then new @ replace (drop (length old) s) old new
      else hd s # replace (tl s) old new)"
  by pat_completeness auto
termination
  by (relation "measure (\<lambda>(s, old, new). length s)") auto

subsection \<open>Versions and the changelog object\<close>

text \<open>
  The fields of git-changelog's \<^verbatim>\<open>Version\<close> that the routine reads or assigns. A tag
  is optional (\<open>None\<close> is Python's \<^verbatim>\<open>None\<close>); of the changelog object only
  \<^verbatim>\<open>versions_list\<close> is used, newest version first.
\<close>

record version =
  tag :: "string option"
  planned_tag :: "string option"
  url :: string
  compare_url :: string

record changelog =
  versions_list :: "version list"

subsection \<open>Regular expressions\<close>

text \<open>
  A compiled pattern is its \<^verbatim>\<open>search\<close> function: for a line it returns no match or a
  match object. Of a match object only \<^verbatim>\<open>groupdict()\<close> is used: a dictionary from the
  names of the pattern's named groups to what each captured (\<open>None\<close> for a group that did
  not take part in the match).
\<close>

type_synonym re_match = "string \<rightharpoonup> string option"

type_synonym re_pattern = "string \<Rightarrow> re_match option"

subsection \<open>The helpers \<^verbatim>\<open>_latest\<close> and \<^verbatim>\<open>_unreleased\<close>\<close>

text \<open>
  \<^verbatim>\<open>_latest\<close>, lines 21-26: the loop over the lines returns at the first line the
  pattern matches; \<^verbatim>\<open>match.groupdict()["version"]\<close> raises KeyError when the pattern
  has no group of that name.
\<close>

fun latest :: "string list \<Rightarrow> re_pattern \<Rightarrow> error + string option" where
  "latest [] regex = Inr None"
| "latest (line # lines) regex =
     (case regex line of
        Some m \<Rightarrow> (case m ''version'' of None \<Rightarrow> Inl KeyError | Some v \<Rightarrow> Inr v)
      | None \<Rightarrow> latest lines regex)"

text \<open>
  \<^verbatim>\<open>_unreleased\<close>, lines 29-33: the loop over \<^verbatim>\<open>enumerate(versions)\<close> carries the
  index and the versions still to visit; at the first version whose tag equals
  \<open>last_release\<close> it returns the slice \<^verbatim>\<open>versions[:index]\<close>.
\<close>

fun unreleased_loop :: "version list \<Rightarrow> string \<Rightarrow> nat \<Rightarrow> version list \<Rightarrow> version list" where
  "unreleased_loop versions last_release index [] = versions"
| "unreleased_loop versions last_release index (v # rest) =
     (if tag v = Some last_release then take index versions
      else unreleased_loop versions last_release (Suc index) rest)"

definition unreleased :: "version list \<Rightarrow> string \<Rightarrow> version list" where
  "unreleased versions last_release = unreleased_loop versions last_release 0 versions"

subsection \<open>The outside world\<close>

text \<open>
  The file system maps a path to the characters of the file. \<^verbatim>\<open>open(path, "r")\<close> reads
  in text mode with universal newlines: CR LF and a lone CR arrive as LF.
  \<^verbatim>\<open>open(path, "w")\<close> empties the file, \<^verbatim>\<open>write\<close> appends to it; a line feed is
  written as it is (the POSIX convention).
\<close>

type_synonym fs = "string \<rightharpoonup> string"

fun universal_newlines :: "string \<Rightarrow> string" where
  "universal_newlines [] = []"
| "universal_newlines [c] = [if c = CR then LF else c]"
| "universal_newlines (c # d # ds) =
     (if c = CR \<and> d = LF then LF # universal_newlines ds
      else if c = CR then LF # universal_newlines (d # ds)
      else c # universal_newlines (d # ds))"

definition read_text :: "fs \<Rightarrow> string \<Rightarrow> error + string" where
  "read_text files path =
     (case files path of
        None \<Rightarrow> Inl FileNotFoundError
      | Some raw \<Rightarrow> Inr (universal_newlines raw))"

definition open_w :: "string \<Rightarrow> fs \<Rightarrow> fs" where
  "open_w path files = files(path \<mapsto> [])"

definition write_text :: "string \<Rightarrow> string \<Rightarrow> fs \<Rightarrow> fs" where
  "write_text path text files =
     files(path \<mapsto> (case files path of None \<Rightarrow> [] | Some old \<Rightarrow> old) @ text)"

text \<open>
  A compiled template is its \<^verbatim>\<open>render(changelog=changelog, inplace=True)\<close>. The
  record \<open>externals\<close> holds the library calls of lines 56-59 and 72:
  \<^verbatim>\<open>urlopen(url).read().decode("utf8")\<close>, \<^verbatim>\<open>env.from_string\<close>,
  \<^verbatim>\<open>Changelog(".", style=commit_style)\<close> and \<^verbatim>\<open>re.compile\<close>.
\<close>

type_synonym template = "changelog \<Rightarrow> error + string"

record externals =
  urlopen :: "string \<Rightarrow> error + string"
  from_string :: "string \<Rightarrow> error + template"
  Changelog :: "string \<Rightarrow> error + changelog"
  re_compile :: "string \<Rightarrow> error + re_pattern"

subsection \<open>\<^verbatim>\<open>update_changelog\<close>\<close>

text \<open>
  Lines 61-67: when the list has exactly one version and its \<^verbatim>\<open>planned_tag\<close> is
  \<^verbatim>\<open>None\<close>, the version gets the tag 0.1.0, the tag is appended to its URL, and every
  HEAD in its compare-URL becomes the tag.
\<close>

definition planned_tag_fixup :: "changelog \<Rightarrow> changelog" where
  "planned_tag_fixup changelog =
     (case versions_list changelog of
        [last_version] \<Rightarrow>
          (if planned_tag last_version = None then
             changelog\<lparr>versions_list :=
               [last_version\<lparr>tag := Some ''0.1.0'',
                  url := url last_version @ ''0.1.0'',
                  compare_url := replace (compare_url last_version) ''HEAD'' ''0.1.0''\<rparr>]\<rparr>
           else changelog)
      | _ \<Rightarrow> changelog)"

text \<open>Lines 69-70: the lines of the file.\<close>

definition read_lines :: "fs \<Rightarrow> string \<Rightarrow> error + string list" where
  "read_lines files inplace_file =
     (case read_text files inplace_file of
        Inl e \<Rightarrow> Inl e
      | Inr text \<Rightarrow> Inr (splitlines text))"

text \<open>
  Lines 73-74: \<^verbatim>\<open>if last_released:\<close> holds for a string that is not empty, and neither
  for \<^verbatim>\<open>None\<close> nor for the empty string.
\<close>

definition drop_released :: "changelog \<Rightarrow> string option \<Rightarrow> changelog" where
  "drop_released changelog last_released =
     (case last_released of
        None \<Rightarrow> changelog
      | Some v \<Rightarrow>
          (if v \<noteq> [] then changelog\<lparr>versions_list := unreleased (versions_list changelog) v\<rparr>
           else changelog))"

text \<open>
  Lines 75-79: render, put the fragment in the slot of the first line equal to the marker,
  and only then open the file for writing.
\<close>

definition render_and_write ::
  "template \<Rightarrow> changelog \<Rightarrow> string list \<Rightarrow> string \<Rightarrow> string \<Rightarrow> fs \<Rightarrow> (error + unit) \<times> fs" where
  "render_and_write template changelog lines marker inplace_file files =
     (case template changelog of
        Inl e \<Rightarrow> (Inl e, files)
      | Inr rendered \<Rightarrow>
          (case list_index lines marker of
             Inl e \<Rightarrow> (Inl e, files)
           | Inr i \<Rightarrow>
               (Inr (),
                write_text inplace_file (rstrip (join [LF] (lines[i := rendered])) [LF] @ [LF])
                  (open_w inplace_file files))))"

text \<open>
  The whole routine, lines 56-79, in the order of the source: fetch and compile the
  template, build the changelog, fix the planned tag, read the file, compile the pattern,
  find the last released version, drop the released versions, render and write. The
  result is the outcome and the file system the run leaves behind.
\<close>

definition update_changelog ::
  "externals \<Rightarrow> string \<Rightarrow> string \<Rightarrow> string \<Rightarrow> string \<Rightarrow> string \<Rightarrow> fs \<Rightarrow> (error + unit) \<times> fs" where
  "update_changelog ext inplace_file marker version_regex template_url commit_style files =
     (case urlopen ext template_url of
        Inl e \<Rightarrow> (Inl e, files)
      | Inr template_text \<Rightarrow>
     (case from_string ext template_text of
        Inl e \<Rightarrow> (Inl e, files)
      | Inr template \<Rightarrow>
     (case Changelog ext commit_style of
        Inl e \<Rightarrow> (Inl e, files)
      | Inr changelog \<Rightarrow>
     (let changelog = planned_tag_fixup changelog in
     (case read_lines files inplace_file of
        Inl e \<Rightarrow> (Inl e, files)
      | Inr lines \<Rightarrow>
     (case re_compile ext version_regex of
        Inl e \<Rightarrow> (Inl e, files)
      | Inr regex \<Rightarrow>
     (case latest lines regex of
        Inl e \<Rightarrow> (Inl e, files)
      | Inr last_released \<Rightarrow>
          render_and_write template (drop_released changelog last_released)
            lines marker inplace_file files)))))))"

subsection \<open>The call made by the \<^verbatim>\<open>changelog\<close> duty, and a small run\<close>

text \<open>
  Lines 105-115: the duty passes the marker \<^verbatim>\<open><!-- insertion marker -->\<close> and the
  pattern \<^verbatim>\<open>^## \[v?(?P<version>[^\]]+)\<close>. The search function of that pattern: the
  line starts with \<^verbatim>\<open>## [\<close>, an optional v follows, then the longest run of
  characters other than the closing bracket, which must not be empty; when nothing but
  the v stands before the bracket, the v itself is the version.
\<close>

definition insertion_marker :: string where
  "insertion_marker = ''<!-- insertion marker -->''"

definition changelog_version_regex :: re_pattern where
  "changelog_version_regex line =
     (if prefix ''## ['' line then
        (let rest = drop 4 line;
             after_v = (case rest of
                          [] \<Rightarrow> rest
                        | c # cs \<Rightarrow>
                            if c = CHR ''v'' \<and> takeWhile (\<lambda>x. x \<noteq> CHR '']'') cs \<noteq> []
                            then cs else rest);
             version = takeWhile (\<lambda>x. x \<noteq> CHR '']'') after_v
         in if version = [] then None else Some [''version'' \<mapsto> Some version])
      else None)"

text \<open>
  A pattern whose group may capture nothing, \<^verbatim>\<open>^## \[(?P<version>[^\]]*)\<close>: the same
  search without the optional v and without the demand for one character.
\<close>

definition lenient_version_regex :: re_pattern where
  "lenient_version_regex line =
     (if prefix ''## ['' line
      then Some [''version'' \<mapsto> Some (takeWhile (\<lambda>x. x \<noteq> CHR '']'') (drop 4 line))]
      else None)"

text \<open>
  A template that prints one heading per version, the tag in brackets, each heading on a
  line of its own; and the library calls of a run whose history is the changelog \<open>cl\<close>.
  Its \<^verbatim>\<open>re.compile\<close> knows the two patterns above by their source text.
\<close>

fun example_headings :: "version list \<Rightarrow> string" where
  "example_headings [] = []"
| "example_headings (v # vs) =
     ''## ['' @ (case tag v of None \<Rightarrow> ''Unreleased'' | Some t \<Rightarrow> t) @ '']''
       @ (if vs = [] then [] else LF # example_headings vs)"

definition example_template :: template where
  "example_template changelog = Inr (example_headings (versions_list changelog))"

definition changelog_duty_regex :: string where
  "changelog_duty_regex =
     ''^## '' @ [CHR 0x5C] @ ''[v?(?P<version>[^'' @ [CHR 0x5C] @ '']]+)''"

definition lenient_regex :: string where
  "lenient_regex =
     ''^## '' @ [CHR 0x5C] @ ''[(?P<version>[^'' @ [CHR 0x5C] @ '']]*)''"

definition example_ext :: "changelog \<Rightarrow> externals" where
  "example_ext cl =
     \<lparr>urlopen = (\<lambda>u. Inr ''{{ changelog }}''),
      from_string = (\<lambda>t. Inr example_template),
      Changelog = (\<lambda>style. Inr cl),
      re_compile = (\<lambda>r. if r = changelog_duty_regex then Inr changelog_version_regex
                         else if r = lenient_regex then Inr lenient_version_regex
                         else Inl RegexError)\<rparr>"

definition example_version :: "string option \<Rightarrow> version" where
  "example_version t =
     \<lparr>tag = t, planned_tag = None, url = ''https://host/tag/'',
      compare_url = ''https://host/compare/1.0.0...HEAD''\<rparr>"

text \<open>The lines of a small changelog: a title, the marker, one released version.\<close>

definition example_lines :: "string list" where
  "example_lines =
     [''# Changelog'', ''<!-- insertion marker -->'', ''## [v1.0.0] - 2023-01-01'',
      ''- initial release'']"

text \<open>
  The file system of the examples holds one file, \<^verbatim>\<open>CHANGELOG.md\<close>, each of its lines
  ended by a line feed. The history of the examples has an untagged version on top of the
  release 1.0.0, or a single untagged version.
\<close>

definition example_path :: string where
  "example_path = ''CHANGELOG.md''"

definition example_url :: string where
  "example_url = ''https://host/keepachangelog.md''"

definition file_of_lines :: "string list \<Rightarrow> fs" where
  "file_of_lines ls = [example_path \<mapsto> join [LF] ls @ [LF]]"

definition example_changelog :: changelog where
  "example_changelog = \<lparr>versions_list = [example_version None, example_version (Some ''1.0.0'')]\<rparr>"

definition first_changelog :: changelog where
  "first_changelog = \<lparr>versions_list = [example_version None]\<rparr>"

text \<open>A history whose newest version carries the empty tag.\<close>

definition draft_changelog :: changelog where
  "draft_changelog = \<lparr>versions_list = [example_version (Some []), example_version (Some ''1.0.0'')]\<rparr>"

text \<open>
  Two single versions without a tag: one that has a planned tag, and one whose URL ends
  in the placeholder HEAD, as its compare-URL does.
\<close>

definition planned_version :: version where
  "planned_version =
     \<lparr>tag = None, planned_tag = Some ''1.1.0'', url = ''https://host/tag/'',
      compare_url = ''https://host/compare/1.0.0...HEAD''\<rparr>"

definition placeholder_version :: version where
  "placeholder_version =
     \<lparr>tag = None, planned_tag = None, url = ''https://host/tree/HEAD'',
      compare_url = ''https://host/compare/1.0.0...HEAD''\<rparr>"


section \<open>Properties\<close>

subsection \<open>Facts about the built-ins\<close>

declare replace.simps [simp del]

lemma list_index_Inr_iff:
  "list_index xs x = Inr i \<longleftrightarrow> i < length xs \<and> xs ! i = x \<and> (\<forall>j<i. xs ! j \<noteq> x)"
proof (induction xs arbitrary: i)
  case Nil
  then show ?case by simp
next
  case (Cons y ys)
  show ?case
  proof (cases "y = x")
    case True
    then show ?thesis by (cases i) auto
  next
    case False
    show ?thesis
    proof (cases i)
      case 0
      with False show ?thesis by (auto split: sum.splits)
    next
      case (Suc k)
      have "(\<forall>j<Suc k. (y # ys) ! j \<noteq> x) \<longleftrightarrow> (\<forall>j<k. ys ! j \<noteq> x)"
        using False by (auto simp: less_Suc_eq_0_disj)
      with False Suc Cons.IH [of k] show ?thesis
        by (auto split: sum.splits)
    qed
  qed
qed

lemma list_index_Inl_iff:
  "list_index xs x = Inl e \<longleftrightarrow> x \<notin> set xs \<and> e = ValueError"
  by (induction xs) (auto split: sum.splits)

lemma list_index_found:
  "x \<in> set xs \<Longrightarrow> \<exists>i. list_index xs x = Inr i"
  by (cases "list_index xs x") (auto simp: list_index_Inl_iff)

lemma replace_Nil: "old \<noteq> [] \<Longrightarrow> replace [] old new = []"
  by (simp add: replace.simps)

lemma replace_hit:
  "old \<noteq> [] \<Longrightarrow> prefix old s \<Longrightarrow>
   replace s old new = new @ replace (drop (length old) s) old new"
  by (subst replace.simps) auto

lemma replace_miss:
  "old \<noteq> [] \<Longrightarrow> \<not> prefix old (c # cs) \<Longrightarrow>
   replace (c # cs) old new = c # replace cs old new"
  by (subst replace.simps) simp

text \<open>
  Whatever the result of a replacement starts with, the text started with it too, as long
  as it avoids the first character of the replacement.
\<close>

lemma prefix_replaceD:
  "old \<noteq> [] \<Longrightarrow> new \<noteq> [] \<Longrightarrow> hd new \<notin> set p \<Longrightarrow>
   prefix p (replace s old new) \<Longrightarrow> prefix p s"
proof (induction p arbitrary: s)
  case Nil
  then show ?case by simp
next
  case (Cons a p)
  show ?case
  proof (cases s)
    case Nil
    with Cons.prems show ?thesis by (simp add: replace_Nil)
  next
    case (Cons c cs)
    show ?thesis
    proof (cases "prefix old s")
      case True
      with Cons.prems have "prefix (a # p) (new @ replace (drop (length old) s) old new)"
        by (simp add: replace_hit)
      with Cons.prems show ?thesis
        by (cases new) auto
    next
      case False
      with Cons.prems \<open>s = c # cs\<close> have "prefix (a # p) (c # replace cs old new)"
        by (simp add: replace_miss)
      with Cons.IH [of cs] Cons.prems \<open>s = c # cs\<close> show ?thesis
        by auto
    qed
  qed
qed

lemma sublist_append_disjoint:
  "old \<noteq> [] \<Longrightarrow> set old \<inter> set new = {} \<Longrightarrow> sublist old (new @ t) \<longleftrightarrow> sublist old t"
proof (induction new)
  case Nil
  then show ?case by simp
next
  case (Cons n new)
  from Cons.prems have "\<not> prefix old (n # new @ t)"
    by (cases old) auto
  with Cons show ?case
    by (simp add: sublist_Cons_right)
qed

text \<open>
  When the old and the new text share no character, no occurrence of the old text is left
  after the replacement.
\<close>

lemma replace_removes_old:
  assumes "old \<noteq> []" and "new \<noteq> []" and "set old \<inter> set new = {}"
  shows "\<not> sublist old (replace s old new)"
proof (induction s rule: length_induct)
  case (1 s)
  show ?case
  proof (cases s)
    case Nil
    with assms show ?thesis by (simp add: replace_Nil)
  next
    case (Cons c cs)
    show ?thesis
    proof (cases "prefix old s")
      case True
      from assms(1) have "length (drop (length old) s) < length s"
        using Cons by simp
      with 1 have "\<not> sublist old (replace (drop (length old) s) old new)"
        by blast
      with True assms show ?thesis
        by (simp add: replace_hit sublist_append_disjoint)
    next
      case False
      from assms have "hd new \<notin> set old"
        by (cases new) auto
      with assms False have "\<not> prefix old (replace s old new)"
        using prefix_replaceD [of old new old s] by blast
      moreover from 1 Cons have "\<not> sublist old (replace cs old new)"
        by simp
      ultimately show ?thesis
        using False Cons assms(1) by (simp add: replace_miss sublist_Cons_right)
    qed
  qed
qed

lemma rstrip_decomp:
  "\<exists>k. s = rstrip s [c] @ replicate k c"
proof -
  have "rev s = takeWhile (\<lambda>x. x \<in> set [c]) (rev s) @ dropWhile (\<lambda>x. x \<in> set [c]) (rev s)"
    by simp
  then have "s = rstrip s [c] @ rev (takeWhile (\<lambda>x. x \<in> set [c]) (rev s))"
    unfolding rstrip_def by (metis rev_append rev_rev_ident)
  moreover have "\<exists>k. rev (takeWhile (\<lambda>x. x \<in> set [c]) (rev s)) = replicate k c"
    by (metis (mono_tags, lifting) empty_iff empty_set replicate_length_same rev_replicate
        set_ConsD set_takeWhileD)
  ultimately show ?thesis by metis
qed

lemma rstrip_last:
  "rstrip s [c] = [] \<or> last (rstrip s [c]) \<noteq> c"
proof (cases "dropWhile (\<lambda>x. x \<in> set [c]) (rev s)")
  case Nil
  then show ?thesis by (simp add: rstrip_def)
next
  case (Cons a as)
  then have "a \<noteq> c"
    using hd_dropWhile [of "\<lambda>x. x \<in> set [c]" "rev s"] by auto
  with Cons show ?thesis by (simp add: rstrip_def)
qed

subsection \<open>Facts about the helpers\<close>

lemma latest_no_match:
  "\<forall>l\<in>set lines. regex l = None \<Longrightarrow> latest lines regex = Inr None"
  by (induction lines) auto

lemma latest_first_match:
  "\<forall>l\<in>set pre. regex l = None \<Longrightarrow> regex line = Some m \<Longrightarrow>
   latest (pre @ line # post) regex =
     (case m ''version'' of None \<Rightarrow> Inl KeyError | Some v \<Rightarrow> Inr v)"
  by (induction pre) auto

lemma unreleased_loop_takeWhile:
  "unreleased_loop (pre @ rest) V (length pre) rest =
     pre @ takeWhile (\<lambda>v. tag v \<noteq> Some V) rest"
proof (induction rest arbitrary: pre)
  case Nil
  then show ?case by simp
next
  case (Cons v rest)
  from Cons.IH [of "pre @ [v]"] show ?case by simp
qed

lemma unreleased_takeWhile:
  "unreleased versions V = takeWhile (\<lambda>v. tag v \<noteq> Some V) versions"
  using unreleased_loop_takeWhile [of "[]" versions V] by (simp add: unreleased_def)

lemma unreleased_first_index:
  "i < length versions \<Longrightarrow> tag (versions ! i) = Some V \<Longrightarrow>
   \<forall>j<i. tag (versions ! j) \<noteq> Some V \<Longrightarrow> unreleased versions V = take i versions"
  unfolding unreleased_takeWhile by (rule takeWhile_eq_take_P_nth) auto

lemma unreleased_no_tag:
  "\<forall>v\<in>set versions. tag v \<noteq> Some V \<Longrightarrow> unreleased versions V = versions"
  by (simp add: unreleased_takeWhile)

lemma changelog_version_regex_group:
  "changelog_version_regex l = Some m \<Longrightarrow> \<exists>v. m ''version'' = Some v"
  by (auto simp: changelog_version_regex_def Let_def split: if_splits)

subsection \<open>The version scan\<close>

text \<open>
  C4. For a pattern with a named group \<^verbatim>\<open>version\<close>, \<open>latest\<close> goes through the lines
  from the top and returns what that group captured in the first line that matches; it
  returns \<open>None\<close> when no line matches, and it never raises.
\<close>

theorem latest_first_match_wins:
  assumes "\<forall>l m. regex l = Some m \<longrightarrow> (\<exists>v. m ''version'' = Some v)"
  shows "(\<exists>r. latest lines regex = Inr r) \<and>
    ((\<forall>l\<in>set lines. regex l = None) \<longrightarrow> latest lines regex = Inr None) \<and>
    (\<forall>pre line post m v.
       lines = pre @ line # post \<and> (\<forall>l\<in>set pre. regex l = None) \<and>
       regex line = Some m \<and> m ''version'' = Some v \<longrightarrow>
       latest lines regex = Inr v)"
proof (intro conjI allI impI)
  show "\<exists>r. latest lines regex = Inr r"
  proof (induction lines)
    case Nil
    then show ?case by simp
  next
    case (Cons l ls)
    show ?case
    proof (cases "regex l")
      case None
      with Cons show ?thesis by simp
    next
      case (Some m)
      with assms obtain v where "m ''version'' = Some v" by blast
      with Some show ?thesis by simp
    qed
  qed
next
  assume "\<forall>l\<in>set lines. regex l = None"
  then show "latest lines regex = Inr None" by (rule latest_no_match)
next
  fix pre line post m v
  assume "lines = pre @ line # post \<and> (\<forall>l\<in>set pre. regex l = None) \<and>
       regex line = Some m \<and> m ''version'' = Some v"
  then show "latest lines regex = Inr v"
    by (simp add: latest_first_match)
qed

theorem latest_first_match_wins_witness:
  "changelog_version_regex ''# Changelog'' = None \<and>
   changelog_version_regex ''<!-- insertion marker -->'' = None \<and>
   changelog_version_regex ''## [v1.0.0] - 2023-01-01'' = Some [''version'' \<mapsto> Some ''1.0.0''] \<and>
   latest example_lines changelog_version_regex = Inr (Some ''1.0.0'') \<and>
   latest [''# Changelog'', ''- initial release''] changelog_version_regex = Inr None"
proof -
  have h: "\<forall>l m. changelog_version_regex l = Some m \<longrightarrow> (\<exists>v. m ''version'' = Some v)"
    using changelog_version_regex_group by blast
  have a: "changelog_version_regex ''# Changelog'' = None"
    and b: "changelog_version_regex ''<!-- insertion marker -->'' = None"
    and c: "changelog_version_regex ''## [v1.0.0] - 2023-01-01'' = Some [''version'' \<mapsto> Some ''1.0.0'']"
    and d: "changelog_version_regex ''- initial release'' = None"
    by (simp_all add: changelog_version_regex_def)
  note first = latest_first_match_wins [OF h, of example_lines, THEN conjunct2, THEN conjunct2,
      rule_format, of "[''# Changelog'', ''<!-- insertion marker -->'']"
      "''## [v1.0.0] - 2023-01-01''" "[''- initial release'']"
      "[''version'' \<mapsto> Some ''1.0.0'']" "Some ''1.0.0''"]
  have e: "latest example_lines changelog_version_regex = Inr (Some ''1.0.0'')"
    by (rule first) (auto simp: example_lines_def a b c)
  note none = latest_first_match_wins [OF h, of "[''# Changelog'', ''- initial release'']",
      THEN conjunct2, THEN conjunct1, rule_format]
  have f: "latest [''# Changelog'', ''- initial release''] changelog_version_regex = Inr None"
    by (rule none) (auto simp: a d)
  from a b c e f show ?thesis by (intro conjI)
qed

subsection \<open>Reading back what was written\<close>

lemma CR_linebreak: "is_linebreak CR" and LF_linebreak: "is_linebreak LF"
  by (simp_all add: is_linebreak_def CR_def LF_def)

lemma splitlines_no_linebreak:
  "l \<in> set (splitlines s) \<Longrightarrow> c \<in> set l \<Longrightarrow> \<not> is_linebreak c"
proof (induction s arbitrary: l rule: splitlines.induct)
  case 1
  then show ?case by simp
next
  case (2 c)
  then show ?case by (auto split: if_splits)
next
  case (3 a d ds)
  then show ?case
    by (auto split: if_splits list.splits) blast+
qed

lemma universal_newlines_id:
  "CR \<notin> set s \<Longrightarrow> universal_newlines s = s"
  by (induction s rule: universal_newlines.induct) auto

lemma splitlines_line:
  "\<forall>c\<in>set l. \<not> is_linebreak c \<Longrightarrow> splitlines (l @ LF # rest) = l # splitlines rest"
proof (induction l)
  case Nil
  then show ?case
    using LF_linebreak by (cases rest) (auto simp: CR_def LF_def)
next
  case (Cons a l)
  then have "a \<noteq> CR" using CR_linebreak by auto
  moreover obtain d ds where "l @ LF # rest = d # ds"
    by (cases "l @ LF # rest") auto
  ultimately show ?case using Cons by simp
qed

lemma splitlines_join:
  "ls \<noteq> [] \<Longrightarrow> \<forall>l\<in>set ls. \<forall>c\<in>set l. \<not> is_linebreak c \<Longrightarrow>
   splitlines (join [LF] ls @ [LF]) = ls"
proof (induction "[LF]" ls rule: join.induct)
  case 1
  then show ?case by simp
next
  case (2 x)
  then show ?case using splitlines_line [of x "[]"] by simp
next
  case (3 x y ys)
  then show ?case using splitlines_line [of x "join [LF] (y # ys) @ [LF]"] by simp
qed

lemma set_join:
  "set (join sep ls) \<subseteq> set sep \<union> \<Union> (set ` set ls)"
  by (induction sep ls rule: join.induct) auto

lemma last_join:
  "ls \<noteq> [] \<Longrightarrow> last ls \<noteq> [] \<Longrightarrow> join sep ls \<noteq> [] \<and> last (join sep ls) = last (last ls)"
  by (induction sep ls rule: join.induct) auto

lemma rstrip_id:
  "s \<noteq> [] \<Longrightarrow> last s \<noteq> c \<Longrightarrow> rstrip s [c] = s"
  by (cases s rule: rev_cases) (auto simp: rstrip_def)

text \<open>A text whose lines end in a line feed is read back line for line.\<close>

lemma read_back_lines:
  assumes "ls \<noteq> []" and clean: "\<forall>l\<in>set ls. \<forall>c\<in>set l. \<not> is_linebreak c"
  shows "splitlines (universal_newlines (join [LF] ls @ [LF])) = ls"
proof -
  have "CR \<notin> set (join [LF] ls @ [LF])"
  proof
    assume "CR \<in> set (join [LF] ls @ [LF])"
    then have "CR \<in> set (join [LF] ls)" by (simp add: CR_def LF_def)
    with set_join [of "[LF]" ls] obtain l where "l \<in> set ls" and "CR \<in> set l"
      by (auto simp: CR_def LF_def)
    with clean CR_linebreak show False by blast
  qed
  then have "universal_newlines (join [LF] ls @ [LF]) = join [LF] ls @ [LF]"
    by (rule universal_newlines_id)
  with splitlines_join [OF assms] show ?thesis by simp
qed

text \<open>
  So is what the routine writes, when the last line is not empty: then nothing is
  stripped.
\<close>

lemma reread_lines:
  assumes "ls \<noteq> []" and "last ls \<noteq> []"
    and clean: "\<forall>l\<in>set ls. \<forall>c\<in>set l. \<not> is_linebreak c"
  shows "splitlines (universal_newlines (rstrip (join [LF] ls) [LF] @ [LF])) = ls"
proof -
  from assms(1,2) have "join [LF] ls \<noteq> []" and "last (join [LF] ls) = last (last ls)"
    using last_join [of ls "[LF]"] by simp_all
  moreover from assms have "last (last ls) \<noteq> LF"
    using LF_linebreak by (metis last_in_set)
  ultimately have "rstrip (join [LF] ls) [LF] = join [LF] ls"
    by (simp add: rstrip_id)
  with read_back_lines [OF assms(1) clean] show ?thesis by simp
qed

subsection \<open>The shape of a run\<close>

lemma update_changelog_run:
  assumes "urlopen ext template_url = Inr template_text"
    and "from_string ext template_text = Inr template"
    and "Changelog ext commit_style = Inr cl"
    and "read_lines files inplace_file = Inr lines"
    and "re_compile ext version_regex = Inr regex"
  shows "update_changelog ext inplace_file marker version_regex template_url commit_style files =
    (case latest lines regex of
       Inl e \<Rightarrow> (Inl e, files)
     | Inr last_released \<Rightarrow>
         render_and_write template (drop_released (planned_tag_fixup cl) last_released)
           lines marker inplace_file files)"
  using assms by (simp add: update_changelog_def Let_def)

lemma render_and_write_done:
  assumes "template c = Inr rendered" and "list_index lines marker = Inr i"
  shows "render_and_write template c lines marker inplace_file files =
    (Inr (), files(inplace_file \<mapsto> rstrip (join [LF] (lines[i := rendered])) [LF] @ [LF]))"
  using assms by (simp add: render_and_write_def write_text_def open_w_def)

lemma render_and_write_no_marker:
  assumes "marker \<notin> set lines"
  shows "\<exists>e. render_and_write template c lines marker inplace_file files = (Inl e, files)"
proof -
  from assms have "list_index lines marker = Inl ValueError"
    by (simp add: list_index_Inl_iff)
  then show ?thesis
    by (cases "template c") (simp_all add: render_and_write_def)
qed

lemma render_and_write_Inr:
  assumes "render_and_write template c lines marker inplace_file files = (Inr u, files')"
  shows "\<exists>rendered i. template c = Inr rendered \<and> list_index lines marker = Inr i \<and>
    files' = files(inplace_file \<mapsto> rstrip (join [LF] (lines[i := rendered])) [LF] @ [LF])"
  using assms
  by (auto simp: render_and_write_def write_text_def open_w_def split: sum.splits)

lemma render_and_write_Inl:
  assumes "render_and_write template c lines marker inplace_file files = (Inl e, files')"
  shows "files' = files"
  using assms by (auto simp: render_and_write_def split: sum.splits)

lemma update_changelog_cases:
  obtains (failed) e where
      "update_changelog ext inplace_file marker version_regex template_url commit_style files
         = (Inl e, files)"
  | (rendering) template c lines where "read_lines files inplace_file = Inr lines"
      "update_changelog ext inplace_file marker version_regex template_url commit_style files
         = render_and_write template c lines marker inplace_file files"
proof (cases "urlopen ext template_url")
  case Inl
  then show ?thesis by (intro failed) (simp add: update_changelog_def Let_def)
next
  case (Inr template_text)
  note U = this
  show ?thesis
  proof (cases "from_string ext template_text")
    case Inl
    with U show ?thesis by (intro failed) (simp add: update_changelog_def Let_def)
  next
    case (Inr template)
    note F = this
    show ?thesis
    proof (cases "Changelog ext commit_style")
      case Inl
      with U F show ?thesis by (intro failed) (simp add: update_changelog_def Let_def)
    next
      case (Inr cl)
      note G = this
      show ?thesis
      proof (cases "read_lines files inplace_file")
        case Inl
        with U F G show ?thesis by (intro failed) (simp add: update_changelog_def Let_def)
      next
        case (Inr lines)
        note R = this
        show ?thesis
        proof (cases "re_compile ext version_regex")
          case Inl
          with U F G R show ?thesis by (intro failed) (simp add: update_changelog_def Let_def)
        next
          case (Inr regex)
          note P = this
          show ?thesis
          proof (cases "latest lines regex")
            case Inl
            with U F G R P show ?thesis by (intro failed) (simp add: update_changelog_def Let_def)
          next
            case (Inr last_released)
            with U F G R P show ?thesis
              by (intro rendering [of lines template
                    "drop_released (planned_tag_fixup cl) last_released"])
                (simp_all add: update_changelog_def Let_def)
          qed
        qed
      qed
    qed
  qed
qed

lemma update_changelog_InrE:
  assumes "update_changelog ext inplace_file marker version_regex template_url commit_style files
      = (Inr u, files')"
  obtains template c lines rendered i where
    "read_lines files inplace_file = Inr lines" and "(template :: template) c = Inr rendered"
    and "list_index lines marker = Inr i"
    and "files' = files(inplace_file \<mapsto> rstrip (join [LF] (lines[i := rendered])) [LF] @ [LF])"
proof (cases rule: update_changelog_cases
    [of ext inplace_file marker version_regex template_url commit_style files])
  case (failed e)
  with assms show ?thesis by simp
next
  case (rendering template c lines)
  with assms have "render_and_write template c lines marker inplace_file files = (Inr u, files')"
    by simp
  from render_and_write_Inr [OF this] obtain rendered i where
    fin: "template c = Inr rendered" "list_index lines marker = Inr i"
      "files' = files(inplace_file \<mapsto> rstrip (join [LF] (lines[i := rendered])) [LF] @ [LF])"
    by blast
  show ?thesis
    by (rule that [where template = template and c = c and rendered = rendered,
          OF rendering(1) fin])
qed

lemma update_changelog_Inl:
  assumes "update_changelog ext inplace_file marker version_regex template_url commit_style files
      = (Inl e, files')"
  shows "files' = files"
proof (cases rule: update_changelog_cases
    [of ext inplace_file marker version_regex template_url commit_style files])
  case (failed e')
  with assms show ?thesis by simp
next
  case (rendering template c lines)
  with assms have "render_and_write template c lines marker inplace_file files = (Inl e, files')"
    by simp
  then show ?thesis by (rule render_and_write_Inl)
qed

subsection \<open>The example run\<close>

lemma example_ext_calls:
  "urlopen (example_ext cl) u = Inr ''{{ changelog }}''"
  "from_string (example_ext cl) t = Inr example_template"
  "Changelog (example_ext cl) style = Inr cl"
  "re_compile (example_ext cl) changelog_duty_regex = Inr changelog_version_regex"
  "re_compile (example_ext cl) lenient_regex = Inr lenient_version_regex"
  by (simp_all add: example_ext_def changelog_duty_regex_def lenient_regex_def)

lemma read_lines_file_of_lines:
  assumes "ls \<noteq> []" and "\<forall>l\<in>set ls. \<forall>c\<in>set l. \<not> is_linebreak c"
  shows "read_lines (file_of_lines ls) example_path = Inr ls"
  using read_back_lines [OF assms]
  by (simp add: read_lines_def read_text_def file_of_lines_def)

lemma read_example_lines:
  "read_lines (file_of_lines example_lines) example_path = Inr example_lines"
  by (rule read_lines_file_of_lines) (simp_all add: example_lines_def is_linebreak_def)

lemma latest_example_lines:
  "latest example_lines changelog_version_regex = Inr (Some ''1.0.0'')"
  by (simp add: example_lines_def changelog_version_regex_def)

lemma example_changelog_selected:
  "drop_released (planned_tag_fixup example_changelog) (Some ''1.0.0'') = first_changelog"
  by (simp add: drop_released_def planned_tag_fixup_def example_changelog_def first_changelog_def
      unreleased_def example_version_def)

lemma example_template_first:
  "example_template first_changelog = Inr ''## [Unreleased]''"
  by (simp add: example_template_def first_changelog_def example_version_def)

lemma example_changelog_fixup:
  "planned_tag_fixup example_changelog = example_changelog"
  "planned_tag_fixup draft_changelog = draft_changelog"
  by (simp_all add: planned_tag_fixup_def example_changelog_def draft_changelog_def)

lemma example_template_example:
  "example_template example_changelog = Inr (''## [Unreleased]'' @ LF # ''## [1.0.0]'')"
  "example_template draft_changelog = Inr (''## []'' @ LF # ''## [1.0.0]'')"
  "example_template \<lparr>versions_list = []\<rparr> = Inr []"
  by (simp_all add: example_template_def example_changelog_def draft_changelog_def
      example_version_def)

lemma render_and_write_example:
  assumes "template c = Inr rendered" and "list_index lines marker = Inr i"
    and "rstrip (join [LF] (lines[i := rendered])) [LF] = join [LF] out"
  shows "render_and_write template c lines marker example_path (file_of_lines ls) =
    (Inr (), file_of_lines out)"
  using assms(3)
  unfolding render_and_write_done [where template = template and c = c, OF assms(1,2)]
  by (simp add: file_of_lines_def)

subsection \<open>Which versions are rendered\<close>

text \<open>
  C3. When no line of the file matches the version pattern, nothing is filtered: the
  template is rendered on the whole version list, as it stands after the step of lines
  61-67, and the run continues with lines 75-79.
\<close>

theorem update_changelog_no_version_line:
  assumes "urlopen ext template_url = Inr template_text"
    and "from_string ext template_text = Inr template"
    and "Changelog ext commit_style = Inr cl"
    and "read_lines files inplace_file = Inr lines"
    and "re_compile ext version_regex = Inr regex"
    and "\<forall>l\<in>set lines. regex l = None"
  shows "update_changelog ext inplace_file marker version_regex template_url commit_style files =
    render_and_write template (planned_tag_fixup cl) lines marker inplace_file files"
  using latest_no_match [OF assms(6)]
  by (simp add: update_changelog_run [OF assms(1-5)] drop_released_def)


theorem update_changelog_no_version_line_witness:
  "update_changelog (example_ext example_changelog) example_path insertion_marker
     changelog_duty_regex example_url ''angular''
     (file_of_lines [''# Changelog'', insertion_marker]) =
   (Inr (), file_of_lines [''# Changelog'', ''## [Unreleased]'', ''## [1.0.0]''])"
proof -
  have read: "read_lines (file_of_lines [''# Changelog'', insertion_marker]) example_path =
      Inr [''# Changelog'', insertion_marker]"
    by (rule read_lines_file_of_lines) (simp_all add: insertion_marker_def is_linebreak_def)
  have none: "\<forall>l\<in>set [''# Changelog'', insertion_marker]. changelog_version_regex l = None"
    by (simp add: insertion_marker_def changelog_version_regex_def)
  have "render_and_write example_template (planned_tag_fixup example_changelog)
      [''# Changelog'', insertion_marker] insertion_marker example_path
      (file_of_lines [''# Changelog'', insertion_marker]) =
    (Inr (), file_of_lines [''# Changelog'', ''## [Unreleased]'', ''## [1.0.0]''])"
    by (rule render_and_write_example [where i = 1 and rendered = "''## [Unreleased]'' @ LF # ''## [1.0.0]''"])
      (simp_all add: example_changelog_fixup example_template_example insertion_marker_def
        rstrip_def LF_def)
  with update_changelog_no_version_line [OF example_ext_calls(1) example_ext_calls(2)
      example_ext_calls(3) read example_ext_calls(4) none]
  show ?thesis by simp
qed

text \<open>
  C10. When the first line that matches the version pattern captures the empty string,
  the run is the one of a file without any version line: nothing is filtered and the
  whole version list is rendered.
\<close>

theorem update_changelog_empty_version:
  assumes "urlopen ext template_url = Inr template_text"
    and "from_string ext template_text = Inr template"
    and "Changelog ext commit_style = Inr cl"
    and "read_lines files inplace_file = Inr lines"
    and "re_compile ext version_regex = Inr regex"
    and "lines = pre @ line # post"
    and "\<forall>l\<in>set pre. regex l = None"
    and "regex line = Some m"
    and "m ''version'' = Some (Some [])"
  shows "update_changelog ext inplace_file marker version_regex template_url commit_style files =
    render_and_write template (planned_tag_fixup cl) lines marker inplace_file files"
  using latest_first_match [OF assms(7,8), of post] assms(6,9)
  by (simp add: update_changelog_run [OF assms(1-5)] drop_released_def)


theorem update_changelog_empty_version_witness:
  "lenient_version_regex ''## [] - draft'' = Some [''version'' \<mapsto> Some []] \<and>
   update_changelog (example_ext example_changelog) example_path insertion_marker
     lenient_regex example_url ''angular''
     (file_of_lines [insertion_marker, ''## [] - draft'', ''## [1.0.0] - 2023-01-01'']) =
   (Inr (), file_of_lines
      [''## [Unreleased]'', ''## [1.0.0]'', ''## [] - draft'', ''## [1.0.0] - 2023-01-01''])"
proof -
  let ?lines = "[insertion_marker, ''## [] - draft'', ''## [1.0.0] - 2023-01-01'']"
  have read: "read_lines (file_of_lines ?lines) example_path = Inr ?lines"
    by (rule read_lines_file_of_lines) (simp_all add: insertion_marker_def is_linebreak_def)
  have split: "?lines = [insertion_marker] @ ''## [] - draft'' # [''## [1.0.0] - 2023-01-01'']"
    by simp
  have none: "\<forall>l\<in>set [insertion_marker]. lenient_version_regex l = None"
    by (simp add: insertion_marker_def lenient_version_regex_def)
  have hit: "lenient_version_regex ''## [] - draft'' = Some [''version'' \<mapsto> Some []]"
    by (simp add: lenient_version_regex_def)
  have group: "[''version'' \<mapsto> Some []] ''version'' = Some (Some [])"
    by simp
  have "render_and_write example_template (planned_tag_fixup example_changelog) ?lines
      insertion_marker example_path (file_of_lines ?lines) =
    (Inr (), file_of_lines
      [''## [Unreleased]'', ''## [1.0.0]'', ''## [] - draft'', ''## [1.0.0] - 2023-01-01''])"
    by (rule render_and_write_example [where i = 0 and rendered = "''## [Unreleased]'' @ LF # ''## [1.0.0]''"])
      (simp_all add: example_changelog_fixup example_template_example insertion_marker_def
        rstrip_def LF_def)
  with update_changelog_empty_version [OF example_ext_calls(1) example_ext_calls(2)
      example_ext_calls(3) read example_ext_calls(5) split none hit group] hit
  show ?thesis by simp
qed

text \<open>
  C2, as the code has it. Let \<open>V\<close> be the version captured in the file, not empty. If an
  entry of the version list, as it stands after the step of lines 61-67, has the tag
  \<open>V\<close>, and \<open>i\<close> is the first such position, the template is rendered on the entries at
  the positions before \<open>i\<close>; if no entry has the tag \<open>V\<close>, on the whole list.
\<close>

theorem update_changelog_drops_released:
  assumes "urlopen ext template_url = Inr template_text"
    and "from_string ext template_text = Inr template"
    and "Changelog ext commit_style = Inr cl"
    and "read_lines files inplace_file = Inr lines"
    and "re_compile ext version_regex = Inr regex"
    and "latest lines regex = Inr (Some V)"
    and "V \<noteq> []"
  shows "(\<forall>i. i < length (versions_list (planned_tag_fixup cl)) \<and>
        tag (versions_list (planned_tag_fixup cl) ! i) = Some V \<and>
        (\<forall>j<i. tag (versions_list (planned_tag_fixup cl) ! j) \<noteq> Some V) \<longrightarrow>
        update_changelog ext inplace_file marker version_regex template_url commit_style files =
          render_and_write template
            ((planned_tag_fixup cl)\<lparr>versions_list := take i (versions_list (planned_tag_fixup cl))\<rparr>)
            lines marker inplace_file files) \<and>
     ((\<forall>v\<in>set (versions_list (planned_tag_fixup cl)). tag v \<noteq> Some V) \<longrightarrow>
        update_changelog ext inplace_file marker version_regex template_url commit_style files =
          render_and_write template (planned_tag_fixup cl) lines marker inplace_file files)"
proof -
  let ?cl = "planned_tag_fixup cl"
  have run: "update_changelog ext inplace_file marker version_regex template_url commit_style files =
      render_and_write template (?cl\<lparr>versions_list := unreleased (versions_list ?cl) V\<rparr>)
        lines marker inplace_file files"
    using assms(6,7) by (simp add: update_changelog_run [OF assms(1-5)] drop_released_def)
  show ?thesis
  proof (intro conjI allI impI)
    fix i
    assume "i < length (versions_list ?cl) \<and> tag (versions_list ?cl ! i) = Some V \<and>
        (\<forall>j<i. tag (versions_list ?cl ! j) \<noteq> Some V)"
    then have "unreleased (versions_list ?cl) V = take i (versions_list ?cl)"
      by (simp add: unreleased_first_index)
    with run show "update_changelog ext inplace_file marker version_regex template_url commit_style files =
          render_and_write template (?cl\<lparr>versions_list := take i (versions_list ?cl)\<rparr>)
            lines marker inplace_file files"
      by simp
  next
    assume "\<forall>v\<in>set (versions_list ?cl). tag v \<noteq> Some V"
    then have "unreleased (versions_list ?cl) V = versions_list ?cl"
      by (rule unreleased_no_tag)
    with run show "update_changelog ext inplace_file marker version_regex template_url commit_style files =
          render_and_write template ?cl lines marker inplace_file files"
      by simp
  qed
qed


theorem update_changelog_drops_released_witness:
  "update_changelog (example_ext example_changelog) example_path insertion_marker
     changelog_duty_regex example_url ''angular'' (file_of_lines example_lines) =
   (Inr (), file_of_lines
      [''# Changelog'', ''## [Unreleased]'', ''## [v1.0.0] - 2023-01-01'', ''- initial release'']) \<and>
   update_changelog (example_ext example_changelog) example_path insertion_marker
     changelog_duty_regex example_url ''angular''
     (file_of_lines [insertion_marker, ''## [0.9.0]'']) =
   (Inr (), file_of_lines [''## [Unreleased]'', ''## [1.0.0]'', ''## [0.9.0]''])"
proof -
  have v100: "''1.0.0'' \<noteq> []" and v090: "''0.9.0'' \<noteq> []"
    by simp_all
  note released = update_changelog_drops_released [OF example_ext_calls(1) example_ext_calls(2)
      example_ext_calls(3) read_example_lines example_ext_calls(4) latest_example_lines
      v100, THEN conjunct1, rule_format, where i = 1 and marker = insertion_marker]
  have "update_changelog (example_ext example_changelog) example_path insertion_marker
     changelog_duty_regex example_url ''angular'' (file_of_lines example_lines) =
    render_and_write example_template
      ((planned_tag_fixup example_changelog)
         \<lparr>versions_list := take 1 (versions_list (planned_tag_fixup example_changelog))\<rparr>)
      example_lines insertion_marker example_path (file_of_lines example_lines)"
    by (rule released)
      (simp add: example_changelog_fixup, simp add: example_changelog_def example_version_def)
  also have "\<dots> = (Inr (), file_of_lines
      [''# Changelog'', ''## [Unreleased]'', ''## [v1.0.0] - 2023-01-01'', ''- initial release''])"
    by (rule render_and_write_example [where i = 1 and rendered = "''## [Unreleased]''"])
      (simp_all add: example_changelog_fixup, simp_all add: example_changelog_def
        example_template_def example_version_def example_lines_def insertion_marker_def
        rstrip_def LF_def)
  finally have first: "update_changelog (example_ext example_changelog) example_path
     insertion_marker changelog_duty_regex example_url ''angular'' (file_of_lines example_lines) =
    (Inr (), file_of_lines
      [''# Changelog'', ''## [Unreleased]'', ''## [v1.0.0] - 2023-01-01'', ''- initial release''])" .
  let ?lines = "[insertion_marker, ''## [0.9.0]'']"
  have read: "read_lines (file_of_lines ?lines) example_path = Inr ?lines"
    by (rule read_lines_file_of_lines) (simp_all add: insertion_marker_def is_linebreak_def)
  have scan: "latest ?lines changelog_version_regex = Inr (Some ''0.9.0'')"
    by (simp add: insertion_marker_def changelog_version_regex_def)
  note unknown = update_changelog_drops_released [OF example_ext_calls(1) example_ext_calls(2)
      example_ext_calls(3) read example_ext_calls(4) scan v090, THEN conjunct2, rule_format,
      where marker = insertion_marker]
  have "update_changelog (example_ext example_changelog) example_path insertion_marker
     changelog_duty_regex example_url ''angular'' (file_of_lines ?lines) =
    render_and_write example_template (planned_tag_fixup example_changelog)
      ?lines insertion_marker example_path (file_of_lines ?lines)"
    by (rule unknown)
      (simp add: example_changelog_fixup, auto simp: example_changelog_def example_version_def)
  also have "\<dots> = (Inr (), file_of_lines [''## [Unreleased]'', ''## [1.0.0]'', ''## [0.9.0]''])"
    by (rule render_and_write_example [where i = 0 and rendered = "''## [Unreleased]'' @ LF # ''## [1.0.0]''"])
      (simp_all add: example_changelog_fixup example_template_example insertion_marker_def
        rstrip_def LF_def)
  finally show ?thesis using first by simp
qed

text \<open>
  For an empty captured version the list is not cut, even when an entry has the empty
  tag: the newest version of this history has it, at position 0, and both headings are
  written, where the empty prefix would give an empty fragment.
\<close>

theorem update_changelog_drops_released_counterexample:
  "latest [insertion_marker, ''## [] - draft''] lenient_version_regex = Inr (Some []) \<and>
   tag (versions_list (planned_tag_fixup draft_changelog) ! 0) = Some [] \<and>
   update_changelog (example_ext draft_changelog) example_path insertion_marker
     lenient_regex example_url ''angular'' (file_of_lines [insertion_marker, ''## [] - draft'']) =
   (Inr (), file_of_lines [''## []'', ''## [1.0.0]'', ''## [] - draft'']) \<and>
   render_and_write example_template
     ((planned_tag_fixup draft_changelog)
        \<lparr>versions_list := take 0 (versions_list (planned_tag_fixup draft_changelog))\<rparr>)
     [insertion_marker, ''## [] - draft''] insertion_marker example_path
     (file_of_lines [insertion_marker, ''## [] - draft'']) =
   (Inr (), file_of_lines [[], ''## [] - draft''])"
proof -
  let ?lines = "[insertion_marker, ''## [] - draft'']"
  have scan: "latest ?lines lenient_version_regex = Inr (Some [])"
    by (simp add: insertion_marker_def lenient_version_regex_def)
  have read: "read_lines (file_of_lines ?lines) example_path = Inr ?lines"
    by (rule read_lines_file_of_lines) (simp_all add: insertion_marker_def is_linebreak_def)
  have "update_changelog (example_ext draft_changelog) example_path insertion_marker
     lenient_regex example_url ''angular'' (file_of_lines ?lines) =
    render_and_write example_template draft_changelog ?lines insertion_marker example_path
      (file_of_lines ?lines)"
    using scan
    by (simp add: update_changelog_run [OF example_ext_calls(1) example_ext_calls(2)
          example_ext_calls(3) read example_ext_calls(5)] drop_released_def
        example_changelog_fixup)
  also have "\<dots> = (Inr (), file_of_lines [''## []'', ''## [1.0.0]'', ''## [] - draft''])"
    by (rule render_and_write_example [where i = 0 and rendered = "''## []'' @ LF # ''## [1.0.0]''"])
      (simp_all add: example_changelog_fixup example_template_example insertion_marker_def
        rstrip_def LF_def)
  finally have run: "update_changelog (example_ext draft_changelog) example_path insertion_marker
     lenient_regex example_url ''angular'' (file_of_lines ?lines) =
    (Inr (), file_of_lines [''## []'', ''## [1.0.0]'', ''## [] - draft''])" .
  have claimed: "render_and_write example_template
     ((planned_tag_fixup draft_changelog)
        \<lparr>versions_list := take 0 (versions_list (planned_tag_fixup draft_changelog))\<rparr>)
     ?lines insertion_marker example_path (file_of_lines ?lines) =
   (Inr (), file_of_lines [[], ''## [] - draft''])"
    by (rule render_and_write_example [where i = 0 and rendered = "[]"])
      (simp_all add: example_changelog_fixup example_template_def insertion_marker_def
        rstrip_def LF_def)
  have "tag (versions_list (planned_tag_fixup draft_changelog) ! 0) = Some []"
    by (simp add: example_changelog_fixup) (simp add: draft_changelog_def example_version_def)
  with scan run claimed show ?thesis by (intro conjI)
qed

subsection \<open>A first release\<close>

lemma first_changelog_fixup:
  "planned_tag_fixup first_changelog =
     \<lparr>versions_list = [\<lparr>tag = Some ''0.1.0'', planned_tag = None, url = ''https://host/tag/0.1.0'',
        compare_url = ''https://host/compare/1.0.0...0.1.0''\<rparr>]\<rparr>"
proof -
  have "replace ''https://host/compare/1.0.0...HEAD'' ''HEAD'' ''0.1.0'' =
      ''https://host/compare/1.0.0...0.1.0''"
    by (simp add: replace.simps)
  then show ?thesis
    by (simp add: planned_tag_fixup_def first_changelog_def example_version_def)
qed

lemma first_changelog_rendered:
  "example_template (planned_tag_fixup first_changelog) = Inr ''## [0.1.0]''"
  by (simp add: first_changelog_fixup example_template_def)

text \<open>A run on a file that ends in an empty line.\<close>

lemma blank_tail_read:
  "read_lines (file_of_lines [insertion_marker, []]) example_path = Inr [insertion_marker, []]"
  by (rule read_lines_file_of_lines) (simp_all add: insertion_marker_def is_linebreak_def)

lemma blank_tail_run:
  "update_changelog (example_ext first_changelog) example_path insertion_marker
     changelog_duty_regex example_url ''angular'' (file_of_lines [insertion_marker, []]) =
   (Inr (), file_of_lines [''## [0.1.0]''])"
proof -
  have "latest [insertion_marker, []] changelog_version_regex = Inr None"
    by (simp add: insertion_marker_def changelog_version_regex_def)
  then have "update_changelog (example_ext first_changelog) example_path insertion_marker
     changelog_duty_regex example_url ''angular'' (file_of_lines [insertion_marker, []]) =
    render_and_write example_template (planned_tag_fixup first_changelog)
      [insertion_marker, []] insertion_marker example_path (file_of_lines [insertion_marker, []])"
    by (simp add: update_changelog_run [OF example_ext_calls(1) example_ext_calls(2)
          example_ext_calls(3) blank_tail_read example_ext_calls(4)] drop_released_def)
  also have "\<dots> = (Inr (), file_of_lines [''## [0.1.0]''])"
    by (rule render_and_write_example [where i = 0 and rendered = "''## [0.1.0]''"])
      (simp_all add: first_changelog_rendered rstrip_def LF_def)
  finally show ?thesis .
qed

subsection \<open>A file without the marker\<close>

text \<open>
  C6. When no line of the file equals the marker, \<open>update_changelog\<close> fails and leaves
  the file system as it was: the file is opened for writing only after the fragment is
  rendered and the marker found. When the library calls succeed, the failure is the
  ValueError of \<^verbatim>\<open>lines.index(marker)\<close>.
\<close>

theorem update_changelog_marker_absent:
  assumes "read_lines files inplace_file = Inr lines"
    and "marker \<notin> set lines"
  shows "(\<exists>e. update_changelog ext inplace_file marker version_regex template_url commit_style files
            = (Inl e, files)) \<and>
    (\<forall>template_text template cl regex last_released rendered.
       urlopen ext template_url = Inr template_text \<and>
       from_string ext template_text = Inr template \<and>
       Changelog ext commit_style = Inr cl \<and>
       re_compile ext version_regex = Inr regex \<and>
       latest lines regex = Inr last_released \<and>
       template (drop_released (planned_tag_fixup cl) last_released) = Inr rendered \<longrightarrow>
       update_changelog ext inplace_file marker version_regex template_url commit_style files
         = (Inl ValueError, files))"
proof (intro conjI allI impI)
  show "\<exists>e. update_changelog ext inplace_file marker version_regex template_url commit_style files
            = (Inl e, files)"
  proof (cases rule: update_changelog_cases
      [of ext inplace_file marker version_regex template_url commit_style files])
    case (failed e)
    then show ?thesis by blast
  next
    case (rendering template c lines')
    with assms(1) have "lines' = lines" by simp
    with rendering(2) render_and_write_no_marker [OF assms(2), of template c inplace_file files]
    show ?thesis by simp
  qed
next
  fix template_text template cl regex last_released rendered
  assume a: "urlopen ext template_url = Inr template_text \<and>
       from_string ext template_text = Inr template \<and>
       Changelog ext commit_style = Inr cl \<and>
       re_compile ext version_regex = Inr regex \<and>
       latest lines regex = Inr last_released \<and>
       template (drop_released (planned_tag_fixup cl) last_released) = Inr rendered"
  from assms(2) have "list_index lines marker = Inl ValueError"
    by (simp add: list_index_Inl_iff)
  with a assms(1) show "update_changelog ext inplace_file marker version_regex template_url commit_style files
         = (Inl ValueError, files)"
    by (simp add: update_changelog_def render_and_write_def)
qed


theorem update_changelog_marker_absent_witness:
  "update_changelog (example_ext example_changelog) example_path insertion_marker
     changelog_duty_regex example_url ''angular''
     (file_of_lines [''# Changelog'', ''## [v1.0.0] - 2023-01-01'']) =
   (Inl ValueError, file_of_lines [''# Changelog'', ''## [v1.0.0] - 2023-01-01''])"
proof -
  let ?lines = "[''# Changelog'', ''## [v1.0.0] - 2023-01-01'']"
  have read: "read_lines (file_of_lines ?lines) example_path = Inr ?lines"
    by (rule read_lines_file_of_lines) (simp_all add: is_linebreak_def)
  have absent: "insertion_marker \<notin> set ?lines"
    by (simp add: insertion_marker_def)
  have scan: "latest ?lines changelog_version_regex = Inr (Some ''1.0.0'')"
    by (simp add: changelog_version_regex_def)
  have rendered: "example_template (drop_released (planned_tag_fixup example_changelog)
      (Some ''1.0.0'')) = Inr ''## [Unreleased]''"
    by (simp add: example_changelog_selected example_template_first)
  note raised = update_changelog_marker_absent [OF read absent, THEN conjunct2, rule_format,
      where ext = "example_ext example_changelog" and template_url = example_url
        and commit_style = "''angular''" and version_regex = changelog_duty_regex
        and template_text = "''{{ changelog }}''" and template = example_template
        and cl = example_changelog and regex = changelog_version_regex
        and last_released = "Some ''1.0.0''" and rendered = "''## [Unreleased]''"]
  show ?thesis
    by (rule raised) (intro conjI; (rule example_ext_calls scan rendered))
qed

subsection \<open>The number of lines\<close>

lemma read_lines_clean:
  assumes "read_lines files inplace_file = Inr lines" and "l \<in> set lines" and "c \<in> set l"
  shows "\<not> is_linebreak c"
proof -
  from assms(1) obtain raw where "lines = splitlines (universal_newlines raw)"
    by (auto simp: read_lines_def read_text_def split: option.splits)
  with assms(2,3) show ?thesis
    using splitlines_no_linebreak by blast
qed

lemma read_lines_written:
  "read_lines (files(inplace_file \<mapsto> text)) inplace_file =
     Inr (splitlines (universal_newlines text))"
  by (simp add: read_lines_def read_text_def)

text \<open>
  C8, as the code has it. When the file contains the marker line and the library calls
  succeed, the line sequence that is joined and written has as many slots as the sequence
  that was read: the fragment takes the one slot of the marker, and no slot is added or
  removed. Reading the written file again gives that very sequence, and so the same
  number of lines, when the fragment contains no line break and the last line of the
  sequence is not empty.
\<close>

theorem update_changelog_line_count:
  assumes "urlopen ext template_url = Inr template_text"
    and "from_string ext template_text = Inr template"
    and "Changelog ext commit_style = Inr cl"
    and "read_lines files inplace_file = Inr lines"
    and "re_compile ext version_regex = Inr regex"
    and "latest lines regex = Inr last_released"
    and "template (drop_released (planned_tag_fixup cl) last_released) = Inr rendered"
    and "marker \<in> set lines"
  shows "\<exists>i files'. list_index lines marker = Inr i \<and>
    update_changelog ext inplace_file marker version_regex template_url commit_style files =
      (Inr (), files') \<and>
    files' = files(inplace_file \<mapsto> rstrip (join [LF] (lines[i := rendered])) [LF] @ [LF]) \<and>
    length (lines[i := rendered]) = length lines \<and>
    ((\<forall>c\<in>set rendered. \<not> is_linebreak c) \<and> last (lines[i := rendered]) \<noteq> [] \<longrightarrow>
       read_lines files' inplace_file = Inr (lines[i := rendered]))"
proof -
  from list_index_found [OF assms(8)] obtain i where i: "list_index lines marker = Inr i" ..
  let ?lines' = "lines[i := rendered]"
  let ?files' = "files(inplace_file \<mapsto> rstrip (join [LF] ?lines') [LF] @ [LF])"
  have run: "update_changelog ext inplace_file marker version_regex template_url commit_style files =
      (Inr (), ?files')"
    using assms(6,7) i
    by (simp add: update_changelog_run [OF assms(1-5)] render_and_write_done)
  have reread: "read_lines ?files' inplace_file = Inr ?lines'"
    if fragment: "\<forall>c\<in>set rendered. \<not> is_linebreak c" and tail: "last ?lines' \<noteq> []"
  proof -
    from assms(8) have "?lines' \<noteq> []" by auto
    moreover have "\<forall>l\<in>set ?lines'. \<forall>c\<in>set l. \<not> is_linebreak c"
    proof (intro ballI)
      fix l c
      assume "l \<in> set ?lines'" and c: "c \<in> set l"
      then have "l = rendered \<or> l \<in> set lines"
        using set_update_subset_insert [of lines i rendered] by auto
      with c fragment read_lines_clean [OF assms(4)] show "\<not> is_linebreak c" by blast
    qed
    ultimately have "splitlines (universal_newlines (rstrip (join [LF] ?lines') [LF] @ [LF])) = ?lines'"
      using tail by (intro reread_lines)
    then show ?thesis by (simp add: read_lines_written)
  qed
  from i run reread show ?thesis
    by (intro exI [of _ i] exI [of _ ?files']) simp
qed

theorem update_changelog_line_count_witness:
  "update_changelog (example_ext example_changelog) example_path insertion_marker
     changelog_duty_regex example_url ''angular'' (file_of_lines example_lines) =
   (Inr (), file_of_lines
      [''# Changelog'', ''## [Unreleased]'', ''## [v1.0.0] - 2023-01-01'', ''- initial release'']) \<and>
   read_lines (file_of_lines
      [''# Changelog'', ''## [Unreleased]'', ''## [v1.0.0] - 2023-01-01'', ''- initial release''])
     example_path =
   Inr [''# Changelog'', ''## [Unreleased]'', ''## [v1.0.0] - 2023-01-01'', ''- initial release''] \<and>
   length [''# Changelog'', ''## [Unreleased]'', ''## [v1.0.0] - 2023-01-01'', ''- initial release'']
     = length example_lines"
proof -
  let ?out = "[''# Changelog'', ''## [Unreleased]'', ''## [v1.0.0] - 2023-01-01'',
    ''- initial release'']"
  have marker: "insertion_marker \<in> set example_lines"
    by (simp add: example_lines_def insertion_marker_def)
  have rendered: "example_template (drop_released (planned_tag_fixup example_changelog)
      (Some ''1.0.0'')) = Inr ''## [Unreleased]''"
    by (simp add: example_changelog_selected example_template_first)
  from update_changelog_line_count [where template_url = example_url
      and commit_style = "''angular''", OF example_ext_calls(1) example_ext_calls(2)
      example_ext_calls(3) read_example_lines example_ext_calls(4) latest_example_lines
      rendered marker]
  obtain i files' where i: "list_index example_lines insertion_marker = Inr i"
    and run: "update_changelog (example_ext example_changelog) example_path insertion_marker
       changelog_duty_regex example_url ''angular'' (file_of_lines example_lines) = (Inr (), files')"
    and files': "files' = (file_of_lines example_lines)(example_path \<mapsto>
        rstrip (join [LF] (example_lines[i := ''## [Unreleased]''])) [LF] @ [LF])"
    and count: "length (example_lines[i := ''## [Unreleased]'']) = length example_lines"
    and reread: "(\<forall>c\<in>set ''## [Unreleased]''. \<not> is_linebreak c) \<and>
        last (example_lines[i := ''## [Unreleased]'']) \<noteq> [] \<longrightarrow>
       read_lines files' example_path = Inr (example_lines[i := ''## [Unreleased]''])"
    by blast
  have "list_index example_lines insertion_marker = Inr 1"
    by (simp add: example_lines_def insertion_marker_def)
  with i have "i = 1" by simp
  then have lines': "example_lines[i := ''## [Unreleased]''] = ?out"
    by (simp add: example_lines_def)
  have "files' = file_of_lines ?out"
    unfolding files' lines' by (simp add: file_of_lines_def rstrip_def LF_def)
  moreover have "read_lines files' example_path = Inr ?out"
    using reread unfolding lines' by (simp add: is_linebreak_def)
  moreover have "length ?out = length example_lines"
    using count unfolding lines' .
  ultimately show ?thesis using run by simp
qed

text \<open>
  Reading the file again does not give the same number of lines in general. Here the
  file ends in an empty line and the fragment is a single line: two lines are read, and
  after the update one, the empty line having gone with the trailing line feeds.
\<close>

theorem update_changelog_reread_counterexample:
  "read_lines (file_of_lines [insertion_marker, []]) example_path = Inr [insertion_marker, []] \<and>
   update_changelog (example_ext first_changelog) example_path insertion_marker
     changelog_duty_regex example_url ''angular'' (file_of_lines [insertion_marker, []]) =
   (Inr (), file_of_lines [''## [0.1.0]'']) \<and>
   read_lines (file_of_lines [''## [0.1.0]'']) example_path = Inr [''## [0.1.0]''] \<and>
   length [''## [0.1.0]''] \<noteq> length [insertion_marker, []]"
proof -
  have "read_lines (file_of_lines [''## [0.1.0]'']) example_path = Inr [''## [0.1.0]'']"
    by (rule read_lines_file_of_lines) (simp_all add: is_linebreak_def)
  with blank_tail_read blank_tail_run show ?thesis by simp
qed

subsection \<open>A marker that occurs twice\<close>

text \<open>
  C9. When the marker is the line at two positions and the library calls succeed,
  \<open>update_changelog\<close> succeeds: the fragment replaces the first line equal to the marker,
  every later line is as it was, and the later marker line is still the marker.
\<close>

theorem update_changelog_first_marker:
  assumes "urlopen ext template_url = Inr template_text"
    and "from_string ext template_text = Inr template"
    and "Changelog ext commit_style = Inr cl"
    and "read_lines files inplace_file = Inr lines"
    and "re_compile ext version_regex = Inr regex"
    and "latest lines regex = Inr last_released"
    and "template (drop_released (planned_tag_fixup cl) last_released) = Inr rendered"
    and "i < j" and "j < length lines" and "lines ! i = marker" and "lines ! j = marker"
  shows "\<exists>k\<le>i. lines ! k = marker \<and> (\<forall>m<k. lines ! m \<noteq> marker) \<and>
    update_changelog ext inplace_file marker version_regex template_url commit_style files =
      (Inr (), files(inplace_file \<mapsto> rstrip (join [LF] (lines[k := rendered])) [LF] @ [LF])) \<and>
    lines[k := rendered] ! k = rendered \<and>
    (\<forall>m. k < m \<and> m < length lines \<longrightarrow> lines[k := rendered] ! m = lines ! m) \<and>
    lines[k := rendered] ! j = marker"
proof -
  from assms(8-10) have "marker \<in> set lines"
    by (metis less_trans nth_mem)
  from list_index_found [OF this] obtain k where k: "list_index lines marker = Inr k" ..
  then have first: "k < length lines" "lines ! k = marker" "\<forall>m<k. lines ! m \<noteq> marker"
    by (simp_all add: list_index_Inr_iff)
  have "k \<le> i"
  proof (rule ccontr)
    assume "\<not> k \<le> i"
    then have "i < k" by simp
    with first(3) assms(10) show False by blast
  qed
  then have "k \<le> i" .
  moreover have "update_changelog ext inplace_file marker version_regex template_url commit_style files =
      (Inr (), files(inplace_file \<mapsto> rstrip (join [LF] (lines[k := rendered])) [LF] @ [LF]))"
    using assms(6,7) k
    by (simp add: update_changelog_run [OF assms(1-5)] render_and_write_done)
  moreover from \<open>k \<le> i\<close> assms(8,11) have "lines[k := rendered] ! j = marker"
    by simp
  ultimately show ?thesis using first
    by (intro exI [of _ k]) simp
qed

theorem update_changelog_first_marker_witness:
  "update_changelog (example_ext first_changelog) example_path insertion_marker
     changelog_duty_regex example_url ''angular''
     (file_of_lines [insertion_marker, ''# Changelog'', insertion_marker]) =
   (Inr (), file_of_lines [''## [0.1.0]'', ''# Changelog'', insertion_marker])"
proof -
  let ?lines = "[insertion_marker, ''# Changelog'', insertion_marker]"
  have read: "read_lines (file_of_lines ?lines) example_path = Inr ?lines"
    by (rule read_lines_file_of_lines) (simp_all add: insertion_marker_def is_linebreak_def)
  have scan: "latest ?lines changelog_version_regex = Inr None"
    by (simp add: insertion_marker_def changelog_version_regex_def)
  have rendered: "example_template (drop_released (planned_tag_fixup first_changelog) None) =
      Inr ''## [0.1.0]''"
    by (simp add: drop_released_def first_changelog_rendered)
  have positions: "(0::nat) < 2" "2 < length ?lines" "?lines ! 0 = insertion_marker"
    "?lines ! 2 = insertion_marker"
    by simp_all
  from update_changelog_first_marker [where template_url = example_url
      and commit_style = "''angular''", OF example_ext_calls(1) example_ext_calls(2)
      example_ext_calls(3) read example_ext_calls(4) scan rendered positions]
  obtain k where "k \<le> 0"
    and run: "update_changelog (example_ext first_changelog) example_path insertion_marker
       changelog_duty_regex example_url ''angular'' (file_of_lines ?lines) =
     (Inr (), (file_of_lines ?lines)(example_path \<mapsto>
        rstrip (join [LF] (?lines[k := ''## [0.1.0]''])) [LF] @ [LF]))"
    by blast
  then have "k = 0" by simp
  with run show ?thesis
    by (simp add: file_of_lines_def rstrip_def LF_def insertion_marker_def)
qed

subsection \<open>The planned tag\<close>

lemma sublist_append_right_disjoint:
  assumes "old \<noteq> []" and "set old \<inter> set new = {}"
  shows "sublist old (u @ new) \<longleftrightarrow> sublist old u"
proof
  assume "sublist old (u @ new)"
  then consider "sublist old u" | "sublist old new"
    | xs1 xs2 where "old = xs1 @ xs2" "suffix xs1 u" "prefix xs2 new"
    unfolding sublist_append by blast
  then show "sublist old u"
  proof cases
    case 1
    then show ?thesis .
  next
    case 2
    then have "set old \<subseteq> set new" by (rule set_mono_sublist)
    with assms show ?thesis by (cases old) auto
  next
    case 3
    from 3(3) have "set xs2 \<subseteq> set new" by (rule set_mono_prefix)
    moreover from 3(1) have "set xs2 \<subseteq> set old" by auto
    ultimately have "xs2 = []" using assms(2) by (cases xs2) auto
    with 3 show ?thesis by (auto simp: suffix_imp_sublist)
  qed
next
  assume "sublist old u"
  then show "sublist old (u @ new)"
    by (simp add: sublist_append)
qed

text \<open>
  When the old text stands at the end and nowhere before, the replacement puts the new
  text in its place.
\<close>

lemma replace_at_end:
  assumes "old \<noteq> []" and "\<not> sublist old (p @ butlast old)"
  shows "replace (p @ old) old new = p @ new"
  using assms(2)
proof (induction p)
  case Nil
  from assms(1) show ?case
    by (simp add: replace_hit [of old old new] replace_Nil)
next
  case (Cons c p)
  have "\<not> prefix old ((c # p) @ old)"
  proof
    assume pre: "prefix old ((c # p) @ old)"
    have "(c # p) @ old = ((c # p) @ butlast old) @ [last old]"
      using assms(1) by simp
    moreover have "length old \<le> length ((c # p) @ butlast old)"
      by simp
    ultimately have "prefix old ((c # p) @ butlast old)"
      using pre by (metis prefix_length_prefix prefix_append prefixI append.right_neutral
          prefix_order.order_refl)
    with Cons.prems show False
      by (meson prefix_imp_sublist)
  qed
  moreover from Cons.prems have "\<not> sublist old (p @ butlast old)"
    by (simp add: sublist_Cons_right)
  ultimately show ?case
    using Cons.IH assms(1) replace_miss [of old c "p @ old" new] by simp
qed

text \<open>
  C5, as the code has it. For a version list of exactly one entry that has no assigned
  release tag and no planned tag, the step of lines 61-67 gives the entry the tag 0.1.0;
  its compare-URL then contains no HEAD, and where HEAD stood at its end and nowhere
  before, the tag stands in its place; its URL is the URL it had with 0.1.0 appended,
  free of HEAD when the URL it had was.
\<close>

theorem planned_tag_fixup_single:
  assumes "versions_list cl = [v]"
    and "tag v = None \<or> tag v = Some []"
    and "planned_tag v = None"
  shows "\<exists>v'. versions_list (planned_tag_fixup cl) = [v'] \<and>
           tag v' = Some ''0.1.0'' \<and>
           \<not> sublist ''HEAD'' (compare_url v') \<and>
           (\<forall>p. compare_url v = p @ ''HEAD'' \<and> \<not> sublist ''HEAD'' (p @ ''HEA'') \<longrightarrow>
              compare_url v' = p @ ''0.1.0'') \<and>
           url v' = url v @ ''0.1.0'' \<and>
           (\<not> sublist ''HEAD'' (url v) \<longrightarrow> \<not> sublist ''HEAD'' (url v'))"
proof -
  let ?v' = "v\<lparr>tag := Some ''0.1.0'', url := url v @ ''0.1.0'',
    compare_url := replace (compare_url v) ''HEAD'' ''0.1.0''\<rparr>"
  from assms(1,3) have "versions_list (planned_tag_fixup cl) = [?v']"
    by (simp add: planned_tag_fixup_def)
  moreover have "\<not> sublist ''HEAD'' (replace (compare_url v) ''HEAD'' ''0.1.0'')"
    by (rule replace_removes_old) simp_all
  moreover have "replace (compare_url v) ''HEAD'' ''0.1.0'' = p @ ''0.1.0''"
    if "compare_url v = p @ ''HEAD'' \<and> \<not> sublist ''HEAD'' (p @ ''HEA'')" for p
    using that replace_at_end [of "''HEAD''" p "''0.1.0''"] by simp
  moreover have "sublist ''HEAD'' (url v @ ''0.1.0'') \<longleftrightarrow> sublist ''HEAD'' (url v)"
    by (rule sublist_append_right_disjoint) simp_all
  ultimately show ?thesis by simp
qed

theorem planned_tag_fixup_single_witness:
  "versions_list (planned_tag_fixup first_changelog) =
     [\<lparr>tag = Some ''0.1.0'', planned_tag = None, url = ''https://host/tag/0.1.0'',
       compare_url = ''https://host/compare/1.0.0...0.1.0''\<rparr>] \<and>
   \<not> sublist ''HEAD'' ''https://host/compare/1.0.0...0.1.0'' \<and>
   \<not> sublist ''HEAD'' ''https://host/tag/0.1.0''"
proof -
  let ?v = "example_version None"
  have single: "versions_list first_changelog = [?v]"
    by (simp add: first_changelog_def)
  have untagged: "tag ?v = None \<or> tag ?v = Some []" and unplanned: "planned_tag ?v = None"
    by (simp_all add: example_version_def)
  have before: "compare_url ?v = ''https://host/compare/1.0.0...'' @ ''HEAD'' \<and>
      \<not> sublist ''HEAD'' (''https://host/compare/1.0.0...'' @ ''HEA'')"
    by (simp add: example_version_def sublist_Cons_right)
  have clean: "\<not> sublist ''HEAD'' (url ?v)"
    by (simp add: example_version_def sublist_Cons_right)
  from planned_tag_fixup_single [OF single untagged unplanned]
  obtain v' where v': "versions_list (planned_tag_fixup first_changelog) = [v']"
    and "tag v' = Some ''0.1.0''"
    and head: "\<not> sublist ''HEAD'' (compare_url v')"
    and ending: "\<forall>p. compare_url ?v = p @ ''HEAD'' \<and> \<not> sublist ''HEAD'' (p @ ''HEA'') \<longrightarrow>
        compare_url v' = p @ ''0.1.0''"
    and "url v' = url ?v @ ''0.1.0''"
    and url: "\<not> sublist ''HEAD'' (url ?v) \<longrightarrow> \<not> sublist ''HEAD'' (url v')"
    by blast
  from ending before have "compare_url v' = ''https://host/compare/1.0.0...'' @ ''0.1.0''"
    by blast
  with v' head url clean \<open>tag v' = Some ''0.1.0''\<close> \<open>url v' = url ?v @ ''0.1.0''\<close>
  show ?thesis
    by (simp add: first_changelog_fixup example_version_def)
qed

text \<open>
  The step is guarded by the planned tag, not by the tag: a single entry without a tag
  that has a planned tag is left as it is, tag and HEAD included. And the tag is appended
  to the URL, not substituted: a URL that ends in the placeholder HEAD keeps it.
\<close>

theorem planned_tag_fixup_counterexample:
  "versions_list \<lparr>versions_list = [planned_version]\<rparr> = [planned_version] \<and>
   tag planned_version = None \<and>
   planned_tag_fixup \<lparr>versions_list = [planned_version]\<rparr> = \<lparr>versions_list = [planned_version]\<rparr> \<and>
   sublist ''HEAD'' (compare_url planned_version) \<and>
   tag placeholder_version = None \<and> planned_tag placeholder_version = None \<and>
   versions_list (planned_tag_fixup \<lparr>versions_list = [placeholder_version]\<rparr>) =
     [\<lparr>tag = Some ''0.1.0'', planned_tag = None, url = ''https://host/tree/HEAD0.1.0'',
       compare_url = ''https://host/compare/1.0.0...0.1.0''\<rparr>] \<and>
   sublist ''HEAD'' ''https://host/tree/HEAD0.1.0''"
proof -
  have r: "replace ''https://host/compare/1.0.0...HEAD'' ''HEAD'' ''0.1.0'' =
      ''https://host/compare/1.0.0...0.1.0''"
    by (simp add: replace.simps)
  have "sublist ''HEAD'' (''https://host/compare/1.0.0...'' @ ''HEAD'' @ [])"
    by (rule sublist_appendI)
  then have a: "sublist ''HEAD'' (compare_url planned_version)"
    by (simp add: planned_version_def)
  have "sublist ''HEAD'' (''https://host/tree/'' @ ''HEAD'' @ ''0.1.0'')"
    by (rule sublist_appendI)
  then have b: "sublist ''HEAD'' ''https://host/tree/HEAD0.1.0''" by simp
  have c: "planned_tag_fixup \<lparr>versions_list = [planned_version]\<rparr> =
      \<lparr>versions_list = [planned_version]\<rparr>"
    by (simp add: planned_tag_fixup_def planned_version_def)
  have d: "versions_list (planned_tag_fixup \<lparr>versions_list = [placeholder_version]\<rparr>) =
     [\<lparr>tag = Some ''0.1.0'', planned_tag = None, url = ''https://host/tree/HEAD0.1.0'',
       compare_url = ''https://host/compare/1.0.0...0.1.0''\<rparr>]"
    by (simp add: planned_tag_fixup_def placeholder_version_def r)
  from a b c d show ?thesis
    by (simp add: planned_version_def placeholder_version_def)
qed

subsection \<open>The lines of the file after the run\<close>

lemma join_concat:
  "ls \<noteq> [] \<Longrightarrow> join sep ls @ sep = concat (map (\<lambda>l. l @ sep) ls)"
  by (induction sep ls rule: join.induct) simp_all



















subsection \<open>The text written\<close>

text \<open>
  C7. After a successful run the file holds the lines that were read, with the fragment
  the template rendered in the slot of the first marker line, joined by line feeds: the
  text in which every line is followed by a line feed, with the line feeds at its end
  reduced to exactly one. When the joined lines do not end in a line feed, that is the
  joined lines and one line feed.
\<close>

theorem update_changelog_output:
  assumes "update_changelog ext inplace_file marker version_regex template_url commit_style files
      = (Inr (), files')"
    and "urlopen ext template_url = Inr template_text"
    and "from_string ext template_text = Inr template"
    and "Changelog ext commit_style = Inr cl"
    and "read_lines files inplace_file = Inr lines"
    and "re_compile ext version_regex = Inr regex"
    and "latest lines regex = Inr last_released"
  shows "\<exists>rendered i written k.
    template (drop_released (planned_tag_fixup cl) last_released) = Inr rendered \<and>
    list_index lines marker = Inr i \<and>
    i < length lines \<and> lines ! i = marker \<and> (\<forall>j<i. lines ! j \<noteq> marker) \<and>
    files' = files(inplace_file \<mapsto> written) \<and>
    written = rstrip (join [LF] (lines[i := rendered])) [LF] @ [LF] \<and>
    join [LF] (lines[i := rendered]) @ [LF] =
      concat (map (\<lambda>l. l @ [LF]) (lines[i := rendered])) \<and>
    concat (map (\<lambda>l. l @ [LF]) (lines[i := rendered])) = written @ replicate k LF \<and>
    suffix [LF] written \<and> \<not> suffix [LF, LF] written \<and>
    (join [LF] (lines[i := rendered]) \<noteq> [] \<and> last (join [LF] (lines[i := rendered])) \<noteq> LF
       \<longrightarrow> written = join [LF] (lines[i := rendered]) @ [LF])"
proof -
  from assms have "render_and_write template (drop_released (planned_tag_fixup cl) last_released)
      lines marker inplace_file files = (Inr (), files')"
    by (simp add: update_changelog_run [OF assms(2-6)])
  from render_and_write_Inr [OF this]
  obtain rendered i where rendered: "template (drop_released (planned_tag_fixup cl) last_released)
      = Inr rendered"
    and i: "list_index lines marker = Inr i"
    and files': "files' = files(inplace_file \<mapsto>
        rstrip (join [LF] (lines[i := rendered])) [LF] @ [LF])"
    by blast
  let ?lines' = "lines[i := rendered]"
  let ?body = "rstrip (join [LF] ?lines') [LF]"
  from i have first: "i < length lines" "lines ! i = marker" "\<forall>j<i. lines ! j \<noteq> marker"
    by (simp_all add: list_index_Inr_iff)
  then have "?lines' \<noteq> []"
    by auto
  then have each: "join [LF] ?lines' @ [LF] = concat (map (\<lambda>l. l @ [LF]) ?lines')"
    by (rule join_concat)
  from rstrip_decomp [of "join [LF] ?lines'" LF]
  obtain k where k: "join [LF] ?lines' = ?body @ replicate k LF" ..
  then have "join [LF] ?lines' @ [LF] = (?body @ replicate k LF) @ [LF]"
    by (rule arg_cong [where f = "\<lambda>t. t @ [LF]"])
  also have "\<dots> = (?body @ [LF]) @ replicate k LF"
    by (simp add: replicate_append_same)
  finally have "join [LF] ?lines' @ [LF] = (?body @ [LF]) @ replicate k LF" .
  with each [symmetric]
  have tail: "concat (map (\<lambda>l. l @ [LF]) ?lines') = (?body @ [LF]) @ replicate k LF"
    by (rule trans)
  have one: "suffix [LF] (?body @ [LF])"
    by (simp add: suffix_def)
  have two: "\<not> suffix [LF, LF] (?body @ [LF])"
  proof
    assume "suffix [LF, LF] (?body @ [LF])"
    then obtain p where "?body @ [LF] = p @ [LF, LF]"
      by (auto simp: suffix_def)
    then have "?body = p @ [LF]" by simp
    with rstrip_last [of "join [LF] ?lines'" LF] show False by simp
  qed
  have whole: "join [LF] ?lines' \<noteq> [] \<and> last (join [LF] ?lines') \<noteq> LF
      \<longrightarrow> ?body @ [LF] = join [LF] ?lines' @ [LF]"
    by (simp add: rstrip_id)
  from rendered i first files' each tail one two whole show ?thesis
    apply -
    apply (rule exI [of _ rendered], rule exI [of _ i], rule exI [of _ "?body @ [LF]"],
        rule exI [of _ k])
    apply (intro conjI)
    apply (assumption | rule refl)+
    done
qed

theorem update_changelog_output_witness:
  "update_changelog (example_ext first_changelog) example_path insertion_marker
     changelog_duty_regex example_url ''angular'' (file_of_lines [insertion_marker, []]) =
   (Inr (), [example_path \<mapsto> ''## [0.1.0]'' @ [LF]]) \<and>
   concat (map (\<lambda>l. l @ [LF]) [''## [0.1.0]'', []]) = (''## [0.1.0]'' @ [LF]) @ replicate 1 LF \<and>
   suffix [LF] (''## [0.1.0]'' @ [LF]) \<and> \<not> suffix [LF, LF] (''## [0.1.0]'' @ [LF])"
proof -
  let ?lines = "[insertion_marker, []]"
  have out: "file_of_lines [''## [0.1.0]''] = [example_path \<mapsto> ''## [0.1.0]'' @ [LF]]"
    by (simp add: file_of_lines_def)
  have scan: "latest ?lines changelog_version_regex = Inr None"
    by (simp add: insertion_marker_def changelog_version_regex_def)
  from update_changelog_output [OF blank_tail_run example_ext_calls(1) example_ext_calls(2)
      example_ext_calls(3) blank_tail_read example_ext_calls(4) scan]
  obtain rendered i written k where
    rendered: "example_template (drop_released (planned_tag_fixup first_changelog) None) =
      Inr rendered"
    and i: "list_index ?lines insertion_marker = Inr i"
    and w: "file_of_lines [''## [0.1.0]''] = (file_of_lines ?lines)(example_path \<mapsto> written)"
    and each: "concat (map (\<lambda>l. l @ [LF]) (?lines[i := rendered])) = written @ replicate k LF"
    and "suffix [LF] written" and "\<not> suffix [LF, LF] written"
    by blast
  from w have written: "written = ''## [0.1.0]'' @ [LF]"
    unfolding out by (metis fun_upd_same option.inject)
  from rendered have "rendered = ''## [0.1.0]''"
    by (simp add: drop_released_def first_changelog_rendered)
  moreover from i have "i = 0" by simp
  ultimately have "concat (map (\<lambda>l. l @ [LF]) [''## [0.1.0]'', []]) =
      (''## [0.1.0]'' @ [LF]) @ replicate k LF"
    using each written by simp
  moreover from this have "k = 1"
    by (cases k) (auto simp: LF_def)
  ultimately show ?thesis
    using blank_tail_run out written \<open>suffix [LF] written\<close> \<open>\<not> suffix [LF, LF] written\<close>
    by simp
qed

end
